theory Spec2Isabelle
  imports Complex_Main "HOL-Library.AList"
begin

section \<open>Document-at-a-time scoring: the notebook practicum-1/4\_Daat\_scoring.ipynb\<close>

text \<open>
  The notebook builds an inverted index from a term-document matrix, precomputes the
  document normalizers and defines \<open>score_dt\<close>. Its cells are embedded below in the
  order of the notebook.

  Conventions of the embedding:
  \<^item> Python floats are modelled as exact reals (\<open>math.log\<close> is \<open>ln\<close>, \<open>math.sqrt\<close> is
    \<open>sqrt\<close>); rounding, overflow and underflow are not modelled.
  \<^item> Every exception the code can raise is a value \<open>Inl e\<close> of a sum type.
  \<^item> A dictionary that the code iterates is an association list in insertion order
    (\<open>AList.update\<close> keeps the position of an existing key and appends a new one, as
    Python's \<open>dict\<close> does); a dictionary that is only looked up is a map.
  \<^item> Posting lists are mutable list objects: they live in a heap of cells, and the
    dictionaries of the index hold their addresses. \<open>next_addr\<close> is the allocation
    pointer: a new list object takes the cell \<open>next_addr\<close>.
  \<^item> The module-level names \<open>inv_idx\<close>, \<open>doclen\<close>, \<open>idx\<close>, \<open>dnorm\<close> and
    \<open>NUM_DOCS\<close> are the fields of the state that every function reads.
\<close>

datatype exn = ZeroDivisionError | KeyError | ValueError

type_synonym posting = "nat \<times> int"

type_synonym addr = nat

text \<open>\<open>class InvIndex\<close>: the one attribute \<open>self.idx\<close>, a dictionary from terms to lists.\<close>

record InvIndex =
  self_idx :: "string \<rightharpoonup> addr"

record state =
  heap :: "addr \<Rightarrow> posting list"
  next_addr :: addr
  inv_idx :: "string \<rightharpoonup> addr"
  doclen :: "nat \<rightharpoonup> int"
  idx :: InvIndex
  dnorm :: "(nat \<times> real) list"
  NUM_DOCS :: nat

definition init_state :: "nat \<Rightarrow> state" where
  "init_state n =
     \<lparr>heap = (\<lambda>_. []), next_addr = 0, inv_idx = Map.empty, doclen = Map.empty,
      idx = \<lparr>self_idx = Map.empty\<rparr>, dnorm = [], NUM_DOCS = n\<rparr>"

subsection \<open>The library functions that can raise\<close>

definition math_log :: "real \<Rightarrow> exn + real" where
  "math_log x = (if x \<le> 0 then Inl ValueError else Inr (ln x))"

definition math_sqrt :: "real \<Rightarrow> exn + real" where
  "math_sqrt x = (if x < 0 then Inl ValueError else Inr (sqrt x))"

subsection \<open>Cell 4: the inverted index and the document lengths\<close>

text \<open>
  The inner loop over \<open>enumerate(vec)\<close>: \<open>inv_idx[term].append((doc_id, freq))\<close> and
  \<open>doclen[doc_id] = doclen.get(doc_id, 0) + freq\<close> for every positive frequency.
\<close>

fun index_vec :: "string \<Rightarrow> (nat \<times> int) list \<Rightarrow> state \<Rightarrow> exn + state" where
  "index_vec term [] s = Inr s"
| "index_vec term ((doc_id, freq) # rest) s =
     (if freq > 0 then
        (case inv_idx s term of
           None \<Rightarrow> Inl KeyError
         | Some a \<Rightarrow>
             index_vec term rest
               (s\<lparr>heap := (heap s)(a := heap s a @ [(doc_id, freq)]),
                  doclen := (doclen s)(doc_id \<mapsto>
                     (case doclen s doc_id of None \<Rightarrow> 0 | Some n \<Rightarrow> n) + freq)\<rparr>))
      else index_vec term rest s)"

text \<open>The outer loop over \<open>td_matrix.items()\<close>; \<open>inv_idx[term] = []\<close> allocates a list.\<close>

fun build_index :: "(string \<times> int list) list \<Rightarrow> state \<Rightarrow> exn + state" where
  "build_index [] s = Inr s"
| "build_index ((term, vec) # rest) s =
     (let a = next_addr s;
          s1 = s\<lparr>heap := (heap s)(a := []), next_addr := Suc a,
                 inv_idx := (inv_idx s)(term \<mapsto> a)\<rparr>
      in case index_vec term (enumerate 0 vec) s1 of
           Inl e \<Rightarrow> Inl e
         | Inr s2 \<Rightarrow> build_index rest s2)"

subsection \<open>Cells 5 to 7: access to the index, and idf\<close>

text \<open>
  \<open>InvIndex.postings\<close> is \<open>self.idx.get(term, [])\<close>: the stored list object, or an
  empty list for an unknown term. Its callers only read the contents (\<open>len\<close>, \<open>list\<close>),
  so the model returns the contents.
\<close>

definition postings :: "state \<Rightarrow> InvIndex \<Rightarrow> string \<Rightarrow> posting list" where
  "postings s self term = (case self_idx self term of None \<Rightarrow> [] | Some a \<Rightarrow> heap s a)"

text \<open>
  \<open>idf\<close> reads the module-level \<open>idx\<close> and \<open>NUM_DOCS\<close>. The division is Python 3's
  true division; its divisor is positive in the branch that divides.
\<close>

definition idf :: "state \<Rightarrow> string \<Rightarrow> exn + real" where
  "idf s term =
     (if length (postings s (idx s) term) > 0
      then math_log (real (NUM_DOCS s) / real (length (postings s (idx s) term)))
      else Inr 0)"

subsection \<open>Cell 8: the document normalizers\<close>

fun dnorm_vec :: "string \<Rightarrow> (nat \<times> int) list \<Rightarrow> state \<Rightarrow> exn + state" where
  "dnorm_vec term [] s = Inr s"
| "dnorm_vec term ((doc_id, freq) # rest) s =
     (if freq > 0 then
        (case doclen s doc_id of
           None \<Rightarrow> Inl KeyError
         | Some dl \<Rightarrow>
             if dl = 0 then Inl ZeroDivisionError
             else
               (case idf s term of
                  Inl e \<Rightarrow> Inl e
                | Inr w \<Rightarrow>
                    (let tfidf = real_of_int freq / real_of_int dl * w
                     in dnorm_vec term rest
                          (s\<lparr>dnorm := AList.update doc_id
                               ((case map_of (dnorm s) doc_id of None \<Rightarrow> 0 | Some v \<Rightarrow> v)
                                  + tfidf ^ 2)
                               (dnorm s)\<rparr>))))
      else dnorm_vec term rest s)"

fun dnorm_sums :: "(string \<times> int list) list \<Rightarrow> state \<Rightarrow> exn + state" where
  "dnorm_sums [] s = Inr s"
| "dnorm_sums ((term, vec) # rest) s =
     (case dnorm_vec term (enumerate 0 vec) s of
        Inl e \<Rightarrow> Inl e
      | Inr s1 \<Rightarrow> dnorm_sums rest s1)"

text \<open>
  The second loop, \<open>dnorm[doc_id] = math.sqrt(val)\<close> over \<open>dnorm.items()\<close>: it
  replaces each value in place, in the order of the entries.
\<close>

fun dnorm_sqrt :: "(nat \<times> real) list \<Rightarrow> exn + (nat \<times> real) list" where
  "dnorm_sqrt [] = Inr []"
| "dnorm_sqrt ((doc_id, val) # rest) =
     (case math_sqrt val of
        Inl e \<Rightarrow> Inl e
      | Inr r \<Rightarrow>
          (case dnorm_sqrt rest of
             Inl e \<Rightarrow> Inl e
           | Inr rest' \<Rightarrow> Inr ((doc_id, r) # rest')))"

text \<open>
  Cells 2 to 8 in sequence, from the term-document matrix and the manually set number
  of documents to the state in which \<open>score_dt\<close> is called.
\<close>

definition notebook :: "(string \<times> int list) list \<Rightarrow> nat \<Rightarrow> exn + state" where
  "notebook td n =
     (case build_index td (init_state n) of
        Inl e \<Rightarrow> Inl e
      | Inr s1 \<Rightarrow>
          (let s2 = s1\<lparr>idx := \<lparr>self_idx = inv_idx s1\<rparr>\<rparr>
           in case dnorm_sums td s2 of
                Inl e \<Rightarrow> Inl e
              | Inr s3 \<Rightarrow>
                  (case dnorm_sqrt (dnorm s3) of
                     Inl e \<Rightarrow> Inl e
                   | Inr dn \<Rightarrow> Inr (s3\<lparr>dnorm := dn\<rparr>))))"

subsection \<open>Cell 9: \<open>score_dt\<close>\<close>

text \<open>\<open>dict(Counter(query))\<close>: the distinct terms in order of first occurrence, counted.\<close>

definition count_term :: "string \<Rightarrow> (string \<times> nat) list \<Rightarrow> (string \<times> nat) list" where
  "count_term t c = AList.update t (case map_of c t of None \<Rightarrow> 1 | Some n \<Rightarrow> n + 1) c"

definition Counter :: "string list \<Rightarrow> (string \<times> nat) list" where
  "Counter query = fold count_term query []"

text \<open>
  The first loop: the query TF-IDF weights and the sum of their squares. The loop
  squares \<open>tfidf_q[term]\<close>, the entry it has just written.
\<close>

fun query_weights ::
  "state \<Rightarrow> string list \<Rightarrow> (string \<times> nat) list \<Rightarrow> (string \<rightharpoonup> real) \<times> real
     \<Rightarrow> exn + (string \<rightharpoonup> real) \<times> real" where
  "query_weights s query [] acc = Inr acc"
| "query_weights s query ((term, freq) # rest) (tfidf_q, qnorm) =
     (if length query = 0 then Inl ZeroDivisionError
      else
        (case idf s term of
           Inl e \<Rightarrow> Inl e
         | Inr w \<Rightarrow>
             (let tf = real freq / real (length query);
                  tfidf_q' = tfidf_q(term \<mapsto> tf * w)
              in query_weights s query rest (tfidf_q', qnorm + (tf * w) ^ 2))))"

text \<open>
  The second loop: \<open>plists[term] = list(index.postings(term))\<close>. \<open>list(...)\<close>
  allocates a new list object holding the same postings.
\<close>

fun fetch_plists ::
  "InvIndex \<Rightarrow> string list \<Rightarrow> (string \<rightharpoonup> addr) \<Rightarrow> state \<Rightarrow> (string \<rightharpoonup> addr) \<times> state" where
  "fetch_plists index [] plists s = (plists, s)"
| "fetch_plists index (term # rest) plists s =
     (let a = next_addr s;
          s' = s\<lparr>heap := (heap s)(a := postings s index term), next_addr := Suc a\<rparr>
      in fetch_plists index rest (plists(term \<mapsto> a)) s')"

text \<open>
  The body of the document loop. Step i) sets \<open>f_d[term] = 0\<close> for every query term;
  step ii) adds \<open>tfidf_q[term] * tfidf_d\<close> with \<open>tfidf_d = 0\<close>. Neither reads
  \<open>plists\<close>, \<open>doc_id\<close> or the index.
\<close>

definition doc_freqs :: "string list \<Rightarrow> (string \<rightharpoonup> int)" where
  "doc_freqs keys = fold (\<lambda>term f_d. f_d(term \<mapsto> 0)) keys Map.empty"

fun doc_score :: "(string \<rightharpoonup> real) \<Rightarrow> string list \<Rightarrow> real \<Rightarrow> exn + real" where
  "doc_score tfidf_q [] score = Inr score"
| "doc_score tfidf_q (term # rest) score =
     (let tfidf_d = 0
      in case tfidf_q term of
           None \<Rightarrow> Inl KeyError
         | Some w \<Rightarrow> doc_score tfidf_q rest (score + w * tfidf_d))"

text \<open>
  The document loop over \<open>range(NUM_DOCS)\<close>. In \<open>score / (qnorm * dnorm[doc_id])\<close>
  the lookup comes first (KeyError), then the division (ZeroDivisionError).
\<close>

fun sweep ::
  "state \<Rightarrow> (string \<rightharpoonup> real) \<Rightarrow> real \<Rightarrow> string list \<Rightarrow> nat list \<Rightarrow> (nat \<times> real) list
     \<Rightarrow> exn + (nat \<times> real) list" where
  "sweep s tfidf_q qnorm keys [] scores = Inr scores"
| "sweep s tfidf_q qnorm keys (doc_id # rest) scores =
     (let f_d = doc_freqs keys
      in case doc_score tfidf_q keys 0 of
           Inl e \<Rightarrow> Inl e
         | Inr score \<Rightarrow>
             (case map_of (dnorm s) doc_id of
                None \<Rightarrow> Inl KeyError
              | Some dn \<Rightarrow>
                  if qnorm * dn = 0 then Inl ZeroDivisionError
                  else sweep s tfidf_q qnorm keys rest
                         (AList.update doc_id (score / (qnorm * dn)) scores)))"

text \<open>
  The whole call. \<open>score_dt_run\<close> returns, beside the result, the local \<open>plists\<close>
  as it is when the call ends (empty if the call ended before the lists were fetched)
  and the state; \<open>score_dt\<close> is the result alone, as the caller sees it.
\<close>

definition score_dt_run ::
  "string list \<Rightarrow> InvIndex \<Rightarrow> state
     \<Rightarrow> (exn + (nat \<times> real) list) \<times> (string \<rightharpoonup> addr) \<times> state" where
  "score_dt_run query index s =
     (let qry = Counter query
      in case query_weights s query qry (Map.empty, 0) of
           Inl e \<Rightarrow> (Inl e, Map.empty, s)
         | Inr (tfidf_q, qsum) \<Rightarrow>
             (case math_sqrt qsum of
                Inl e \<Rightarrow> (Inl e, Map.empty, s)
              | Inr qnorm \<Rightarrow>
                  (let (plists, s') = fetch_plists index (map fst qry) Map.empty s
                   in (sweep s' tfidf_q qnorm (map fst qry) [0..<NUM_DOCS s'] [],
                       plists, s'))))"

definition score_dt :: "string list \<Rightarrow> InvIndex \<Rightarrow> state \<Rightarrow> exn + (nat \<times> real) list" where
  "score_dt query index s = fst (score_dt_run query index s)"

subsection \<open>Cells 2, 3 and 10: the worked example\<close>

definition td_matrix :: "(string \<times> int list) list" where
  "td_matrix =
     [(''beijing'', [0, 1, 0, 0, 1]),
      (''dish'', [0, 1, 0, 0, 1]),
      (''duck'', [3, 2, 2, 0, 1]),
      (''rabbit'', [0, 0, 1, 1, 0]),
      (''recipe'', [0, 0, 1, 1, 1]),
      (''roast'', [0, 0, 0, 0, 0])]"

text \<open>
  Cell 10, \<open>scores = score_dt(query, idx)\<close>, after the cells before it have run on a
  term-document matrix \<open>td\<close> with \<open>NUM_DOCS = n\<close>.
\<close>

definition run_notebook ::
  "(string \<times> int list) list \<Rightarrow> nat \<Rightarrow> string list \<Rightarrow> exn + (nat \<times> real) list" where
  "run_notebook td n query =
     (case notebook td n of
        Inl e \<Rightarrow> Inl e
      | Inr s \<Rightarrow> score_dt query (idx s) s)"

text \<open>
  The state in which cell 10 of the notebook as it stands calls \<open>score_dt\<close>: cells 2
  to 8 run on \<open>td_matrix\<close> with \<open>NUM_DOCS = 5\<close> (they raise nothing there,
  see \<open>notebook_example\<close>).
\<close>

definition example_state :: state where
  "example_state = (case notebook td_matrix 5 of Inr s \<Rightarrow> s | Inl e \<Rightarrow> init_state 5)"

section \<open>Properties of the loops of \<open>score_dt\<close>\<close>

subsection \<open>The query: distinct terms and weights\<close>

lemma fold_count_term_keys:
  "fst ` set (fold count_term query c) = fst ` set c \<union> set query"
  by (induction query arbitrary: c) (auto simp: count_term_def dom_update)

lemma Counter_keys: "fst ` set (Counter query) = set query"
  by (simp add: Counter_def fold_count_term_keys)

text \<open>
  When the first loop ends, \<open>tfidf_q\<close> has an entry for every distinct query term,
  and the sum of squares has not decreased (so \<open>math.sqrt\<close> does not raise on it).
\<close>

lemma query_weights_dom:
  "query_weights s query qry (tq0, n0) = Inr (tq, n) \<Longrightarrow>
     dom tq = dom tq0 \<union> fst ` set qry \<and> n0 \<le> n"
proof (induction qry arbitrary: tq0 n0)
  case Nil
  then show ?case by simp
next
  case (Cons p qry)
  obtain t f where p: "p = (t, f)" by (cases p)
  define v where "v = real f / real (length query)"
  from Cons.prems p obtain w where
    w: "idf s t = Inr w" and
    rec: "query_weights s query qry (tq0(t \<mapsto> v * w), n0 + (v * w) ^ 2) = Inr (tq, n)"
    by (auto simp: Let_def v_def split: if_splits sum.splits)
  from Cons.IH [OF rec] have d: "dom tq = insert t (dom tq0) \<union> fst ` set qry"
    and le: "n0 + (v * w) ^ 2 \<le> n" by auto
  have "0 \<le> (v * w) ^ 2" by simp
  with le have "n0 \<le> n" by linarith
  with d p show ?case by auto
qed

text \<open>A term whose idf is 0 gets the weight 0, whatever its frequency in the query.\<close>

lemma query_weights_zero_idf:
  "idf s term = Inr 0 \<Longrightarrow>
   query_weights s query qry (tq0, n0) = Inr (tq, n) \<Longrightarrow>
   term \<in> fst ` set qry \<or> tq0 term = Some 0 \<Longrightarrow> tq term = Some 0"
proof (induction qry arbitrary: tq0 n0)
  case Nil
  then show ?case by simp
next
  case (Cons p qry)
  obtain t f where p: "p = (t, f)" by (cases p)
  define v where "v = real f / real (length query)"
  from Cons.prems(2) p obtain w where
    w: "idf s t = Inr w" and
    rec: "query_weights s query qry (tq0(t \<mapsto> v * w), n0 + (v * w) ^ 2) = Inr (tq, n)"
    by (auto simp: Let_def v_def split: if_splits sum.splits)
  have "term \<in> fst ` set qry \<or> (tq0(t \<mapsto> v * w)) term = Some 0"
    using Cons.prems(1,3) p w by auto
  from Cons.IH [OF Cons.prems(1) rec this] show ?case .
qed

lemma math_sqrt_nonneg: "0 \<le> x \<Longrightarrow> math_sqrt x = Inr (sqrt x)"
  by (simp add: math_sqrt_def)

subsection \<open>idf\<close>

lemma idf_zero_df: "postings s (idx s) term = [] \<Longrightarrow> idf s term = Inr 0"
  by (simp add: idf_def)

lemma idf_positive_df:
  assumes "postings s (idx s) term \<noteq> []" and "0 < NUM_DOCS s"
  shows "idf s term = Inr (ln (real (NUM_DOCS s) / real (length (postings s (idx s) term))))"
proof -
  from assms have "0 < real (NUM_DOCS s) / real (length (postings s (idx s) term))"
    by simp
  then have "\<not> real (NUM_DOCS s) / real (length (postings s (idx s) term)) \<le> 0"
    by (simp only: not_le)
  with assms(1) show ?thesis by (simp add: idf_def math_log_def)
qed

text \<open>With \<open>NUM_DOCS = 0\<close> and a non-empty posting list, \<open>math.log(0.0)\<close> raises.\<close>

lemma idf_no_documents:
  "postings s (idx s) term \<noteq> [] \<Longrightarrow> NUM_DOCS s = 0 \<Longrightarrow> idf s term = Inl ValueError"
  by (simp add: idf_def math_log_def)

subsection \<open>Fetching the posting lists\<close>

text \<open>
  The loop allocates one cell per key above the allocation pointer and writes nothing
  else.
\<close>

lemma fetch_plists_frame:
  "fetch_plists index keys plists s = (plists', s') \<Longrightarrow>
     inv_idx s' = inv_idx s \<and> doclen s' = doclen s \<and> idx s' = idx s \<and> dnorm s' = dnorm s
     \<and> NUM_DOCS s' = NUM_DOCS s \<and> next_addr s' = next_addr s + length keys
     \<and> (\<forall>a < next_addr s. heap s' a = heap s a)"
proof (induction keys arbitrary: plists s)
  case Nil
  then show ?case by simp
next
  case (Cons t keys)
  define s1 where
    "s1 = s\<lparr>heap := (heap s)(next_addr s := postings s index t), next_addr := Suc (next_addr s)\<rparr>"
  from Cons.prems have "fetch_plists index keys (plists(t \<mapsto> next_addr s)) s1 = (plists', s')"
    by (simp add: Let_def s1_def)
  from Cons.IH [OF this] show ?case by (simp add: s1_def)
qed

text \<open>
  If the lists of the index lie below the allocation pointer, every entry that the loop
  adds to \<open>plists\<close> is a new cell holding the postings of its term.
\<close>

lemma fetch_plists_copies:
  "fetch_plists index keys plists s = (plists', s') \<Longrightarrow>
   \<forall>t a. self_idx index t = Some a \<longrightarrow> a < next_addr s \<Longrightarrow>
   plists' t = Some a \<Longrightarrow>
     plists t = Some a \<or>
     (t \<in> set keys \<and> next_addr s \<le> a \<and> a < next_addr s' \<and> heap s' a = postings s index t)"
proof (induction keys arbitrary: plists s)
  case Nil
  then show ?case by simp
next
  case (Cons k keys)
  define s1 where
    "s1 = s\<lparr>heap := (heap s)(next_addr s := postings s index k), next_addr := Suc (next_addr s)\<rparr>"
  from Cons.prems(1)
  have run: "fetch_plists index keys (plists(k \<mapsto> next_addr s)) s1 = (plists', s')"
    by (simp add: Let_def s1_def)
  have alloc: "\<forall>t a. self_idx index t = Some a \<longrightarrow> a < next_addr s1"
    using Cons.prems(2) by (auto simp: s1_def less_Suc_eq)
  have same: "postings s1 index u = postings s index u" for u
    using Cons.prems(2) by (auto simp: postings_def s1_def split: option.splits)
  from fetch_plists_frame [OF run]
  have nxt: "next_addr s' = next_addr s1 + length keys"
    and old: "\<forall>b < next_addr s1. heap s' b = heap s1 b" by auto
  from Cons.IH [OF run alloc Cons.prems(3)]
  consider "(plists(k \<mapsto> next_addr s)) t = Some a"
    | "t \<in> set keys" "next_addr s1 \<le> a" "a < next_addr s'" "heap s' a = postings s1 index t"
    by blast
  then show ?case
  proof cases
    case 1
    show ?thesis
    proof (cases "t = k")
      case True
      with 1 have a: "a = next_addr s" by simp
      then have "heap s' a = heap s1 a" using old by (simp add: s1_def)
      then have "heap s' a = postings s index k" by (simp add: s1_def a)
      with True a nxt show ?thesis by (simp add: s1_def)
    next
      case False
      with 1 show ?thesis by simp
    qed
  next
    case 2
    then show ?thesis using same by (simp add: s1_def)
  qed
qed

lemma score_dt_run_frame:
  "score_dt_run query index s = (r, plists, s') \<Longrightarrow>
     inv_idx s' = inv_idx s \<and> doclen s' = doclen s \<and> idx s' = idx s \<and> dnorm s' = dnorm s
     \<and> NUM_DOCS s' = NUM_DOCS s \<and> next_addr s \<le> next_addr s'
     \<and> (\<forall>a < next_addr s. heap s' a = heap s a)"
  by (auto simp: score_dt_run_def Let_def split: sum.splits prod.splits dest!: fetch_plists_frame)

lemma score_dt_run_plists:
  assumes "score_dt_run query index s = (r, plists, s')"
    and "\<forall>t a. self_idx index t = Some a \<longrightarrow> a < next_addr s"
    and "plists t = Some a"
  shows "next_addr s \<le> a \<and> a < next_addr s' \<and> heap s' a = postings s index t"
  using assms
  by (auto simp: score_dt_run_def Let_def split: sum.splits prod.splits
        dest: fetch_plists_copies)

subsection \<open>The states that the notebook builds\<close>

text \<open>
  Cells 4 and 8 allocate every list of the index below the allocation pointer, so the
  index that cell 6 wraps refers to existing list objects only.
\<close>

lemma index_vec_frame:
  "index_vec term vec s = Inr s' \<Longrightarrow>
     inv_idx s' = inv_idx s \<and> next_addr s' = next_addr s"
  by (induction vec arbitrary: s) (auto split: if_splits option.splits)

lemma build_index_allocated:
  "build_index td s = Inr s' \<Longrightarrow>
   \<forall>t a. inv_idx s t = Some a \<longrightarrow> a < next_addr s \<Longrightarrow>
   \<forall>t a. inv_idx s' t = Some a \<longrightarrow> a < next_addr s'"
proof (induction td arbitrary: s)
  case Nil
  then show ?case by simp
next
  case (Cons p td)
  obtain t vec where p: "p = (t, vec)" by (cases p)
  define s1 where
    "s1 = s\<lparr>heap := (heap s)(next_addr s := []), next_addr := Suc (next_addr s),
            inv_idx := (inv_idx s)(t \<mapsto> next_addr s)\<rparr>"
  from Cons.prems(1) p obtain s2 where
    v: "index_vec t (enumerate 0 vec) s1 = Inr s2" and
    rest: "build_index td s2 = Inr s'"
    by (auto simp: Let_def s1_def split: sum.splits)
  have "\<forall>u a. inv_idx s1 u = Some a \<longrightarrow> a < next_addr s1"
    using Cons.prems(2) by (auto simp: s1_def less_Suc_eq)
  with index_vec_frame [OF v] have "\<forall>u a. inv_idx s2 u = Some a \<longrightarrow> a < next_addr s2"
    by simp
  from Cons.IH [OF rest this] show ?case .
qed

lemma dnorm_vec_frame:
  "dnorm_vec term vec s = Inr s' \<Longrightarrow>
     inv_idx s' = inv_idx s \<and> next_addr s' = next_addr s \<and> idx s' = idx s"
  by (induction vec arbitrary: s) (auto simp: Let_def split: if_splits option.splits sum.splits)

lemma dnorm_sums_frame:
  "dnorm_sums td s = Inr s' \<Longrightarrow>
     inv_idx s' = inv_idx s \<and> next_addr s' = next_addr s \<and> idx s' = idx s"
proof (induction td arbitrary: s)
  case Nil
  then show ?case by simp
next
  case (Cons p td)
  obtain t vec where p: "p = (t, vec)" by (cases p)
  from Cons.prems p obtain s1 where
    v: "dnorm_vec t (enumerate 0 vec) s = Inr s1" and rest: "dnorm_sums td s1 = Inr s'"
    by (auto split: sum.splits)
  from dnorm_vec_frame [OF v] Cons.IH [OF rest] show ?case by simp
qed

lemma notebook_allocated:
  assumes "notebook td n = Inr s"
  shows "\<forall>t a. self_idx (idx s) t = Some a \<longrightarrow> a < next_addr s"
proof -
  from assms obtain s1 s3 dn where
    b: "build_index td (init_state n) = Inr s1" and
    d: "dnorm_sums td (s1\<lparr>idx := \<lparr>self_idx = inv_idx s1\<rparr>\<rparr>) = Inr s3" and
    s: "s = s3\<lparr>dnorm := dn\<rparr>"
    by (auto simp: notebook_def Let_def split: sum.splits)
  have "\<forall>t a. inv_idx (init_state n) t = Some a \<longrightarrow> a < next_addr (init_state n)"
    by (simp add: init_state_def)
  from build_index_allocated [OF b this]
  have "\<forall>t a. inv_idx s1 t = Some a \<longrightarrow> a < next_addr s1" .
  with dnorm_sums_frame [OF d] s show ?thesis by simp
qed

subsection \<open>The document loop\<close>

text \<open>The score of a document before normalisation is the value it starts from.\<close>

lemma doc_score_eq:
  "doc_score tfidf_q keys score
     = (if set keys \<subseteq> dom tfidf_q then Inr score else Inl KeyError)"
  by (induction keys arbitrary: score) (auto split: option.splits)

lemma doc_score_skip:
  "tfidf_q term = Some w \<Longrightarrow>
     doc_score tfidf_q (term # keys) score = doc_score tfidf_q keys score"
  by simp

lemma update_fresh_key: "k \<notin> fst ` set al \<Longrightarrow> AList.update k v al = al @ [(k, v)]"
  by (induction al) auto

lemma fold_update_range:
  "fold (\<lambda>d. AList.update d (0::real)) [i..<i + k] (map (\<lambda>d. (d, 0)) [0..<i])
     = map (\<lambda>d. (d, 0)) [0..<i + k]"
proof (induction k arbitrary: i)
  case 0
  then show ?case by simp
next
  case (Suc k)
  have "[i..<i + Suc k] = i # [Suc i..<Suc i + k]"
    by (simp add: upt_rec)
  moreover have "AList.update i (0::real) (map (\<lambda>d. (d, 0)) [0..<i])
      = map (\<lambda>d. (d, 0)) [0..<Suc i]"
    by (subst update_fresh_key) (auto simp: image_iff)
  ultimately show ?case using Suc.IH [of "Suc i"] by simp
qed

lemma fold_update_upt:
  "fold (\<lambda>d. AList.update d (0::real)) [0..<n] [] = map (\<lambda>d. (d, 0)) [0..<n]"
  using fold_update_range [of 0 n] by simp

lemma map_fst_zero_scores: "map fst (map (\<lambda>d. (d, 0::real)) [0..<n]) = [0..<n]"
  by (simp add: comp_def)

text \<open>
  The loop returns exactly when every document it visits has a normalizer and the
  product of the two normalizers is not 0; every score it stores is then 0.
\<close>

lemma sweep_Inr_iff:
  assumes "set keys \<subseteq> dom tfidf_q"
  shows "sweep s tfidf_q qnorm keys docs scores = Inr r \<longleftrightarrow>
     (\<forall>d \<in> set docs. \<exists>v. map_of (dnorm s) d = Some v \<and> qnorm * v \<noteq> 0)
       \<and> r = fold (\<lambda>d. AList.update d 0) docs scores"
  using assms
  by (induction docs arbitrary: scores) (auto simp: doc_score_eq Let_def split: option.splits)

subsection \<open>When \<open>score_dt\<close> returns, and what\<close>

lemma score_dt_Inr_iff:
  "score_dt query index s = Inr r \<longleftrightarrow>
     (\<exists>tfidf_q qsum.
        query_weights s query (Counter query) (Map.empty, 0) = Inr (tfidf_q, qsum)
        \<and> (\<forall>d < NUM_DOCS s. \<exists>v. map_of (dnorm s) d = Some v \<and> sqrt qsum * v \<noteq> 0))
     \<and> r = map (\<lambda>d. (d, 0)) [0..<NUM_DOCS s]"
proof (cases "query_weights s query (Counter query) (Map.empty, 0)")
  case (Inl e)
  then show ?thesis by (simp add: score_dt_def score_dt_run_def)
next
  case (Inr p)
  obtain tq qsum where p: "p = (tq, qsum)" by (cases p)
  from query_weights_dom [OF Inr [unfolded p]]
  have keys: "set (map fst (Counter query)) \<subseteq> dom tq" and nonneg: "0 \<le> qsum" by auto
  obtain plists s' where
    f: "fetch_plists index (map fst (Counter query)) Map.empty s = (plists, s')"
    by (cases "fetch_plists index (map fst (Counter query)) Map.empty s")
  from fetch_plists_frame [OF f] have same: "dnorm s' = dnorm s" "NUM_DOCS s' = NUM_DOCS s"
    by auto
  have "score_dt query index s
          = sweep s' tq (sqrt qsum) (map fst (Counter query)) [0..<NUM_DOCS s] []"
    by (simp add: score_dt_def score_dt_run_def Inr p math_sqrt_nonneg [OF nonneg] f same)
  then show ?thesis
    by (auto simp: sweep_Inr_iff [OF keys] same Inr p fold_update_upt)
qed

text \<open>
  A returned mapping has the keys \<open>0\<close> to \<open>N - 1\<close>, in this order and once each,
  whether or not a document matches a query term; and a mapping is returned whenever
  the squared query weights do not sum to 0 and every document has a normalizer other
  than 0.
\<close>

lemma score_dt_returned_keys:
  "(score_dt query index s = Inr scores \<longrightarrow>
      map fst scores = [0..<NUM_DOCS s] \<and> length scores = NUM_DOCS s)
   \<and> (query_weights s query (Counter query) (Map.empty, 0) = Inr (tfidf_q, qsum) \<and> qsum \<noteq> 0
       \<and> (\<forall>d < NUM_DOCS s. \<exists>v. map_of (dnorm s) d = Some v \<and> v \<noteq> 0)
      \<longrightarrow> (\<exists>scores'. score_dt query index s = Inr scores'
                \<and> map fst scores' = [0..<NUM_DOCS s] \<and> length scores' = NUM_DOCS s))"
proof -
  have a: "score_dt query index s = Inr scores \<longrightarrow>
      map fst scores = [0..<NUM_DOCS s] \<and> length scores = NUM_DOCS s"
  proof
    assume "score_dt query index s = Inr scores"
    then have "scores = map (\<lambda>d. (d, 0)) [0..<NUM_DOCS s]"
      unfolding score_dt_Inr_iff by blast
    then show "map fst scores = [0..<NUM_DOCS s] \<and> length scores = NUM_DOCS s"
      using map_fst_zero_scores [of "NUM_DOCS s"] by simp
  qed
  have b: "\<exists>scores'. score_dt query index s = Inr scores'
                \<and> map fst scores' = [0..<NUM_DOCS s] \<and> length scores' = NUM_DOCS s"
    if "query_weights s query (Counter query) (Map.empty, 0) = Inr (tfidf_q, qsum)"
      and "qsum \<noteq> 0"
      and "\<forall>d < NUM_DOCS s. \<exists>v. map_of (dnorm s) d = Some v \<and> v \<noteq> 0"
  proof -
    from that(2) have "sqrt qsum \<noteq> 0" by simp
    with that(3)
    have "\<forall>d < NUM_DOCS s. \<exists>v. map_of (dnorm s) d = Some v \<and> sqrt qsum * v \<noteq> 0"
      by auto
    with that(1) have "score_dt query index s = Inr (map (\<lambda>d. (d, 0)) [0..<NUM_DOCS s])"
      unfolding score_dt_Inr_iff by blast
    then show ?thesis using map_fst_zero_scores [of "NUM_DOCS s"] by simp
  qed
  from a b show ?thesis by blast
qed

text \<open>
  Hence no scores are returned for a collection with at least one document when the
  query normalizer is 0, or when some document has no normalizer or the normalizer 0.
\<close>

lemma score_dt_zero_qnorm_no_scores:
  assumes "query_weights s query (Counter query) (Map.empty, 0) = Inr (tfidf_q, 0)"
    and "0 < NUM_DOCS s"
  shows "score_dt query index s \<noteq> Inr r"
proof
  assume "score_dt query index s = Inr r"
  then obtain v where "sqrt 0 * v \<noteq> (0::real)"
    unfolding score_dt_Inr_iff using assms by auto
  then show False by simp
qed

lemma score_dt_zero_dnorm_no_scores:
  assumes "d < NUM_DOCS s"
    and "map_of (dnorm s) d = None \<or> map_of (dnorm s) d = Some 0"
  shows "score_dt query index s \<noteq> Inr r"
proof
  assume "score_dt query index s = Inr r"
  then obtain qsum v where "map_of (dnorm s) d = Some v" "sqrt qsum * v \<noteq> 0"
    unfolding score_dt_Inr_iff using assms(1) by blast
  with assms(2) show False by auto
qed

section \<open>The worked example\<close>

lemmas notebook_eval =
  notebook_def init_state_def enumerate_eq_zip upt_rec Let_def idf_def
  postings_def math_log_def math_sqrt_nonneg add_nonneg_nonneg

lemmas score_dt_eval =
  run_notebook_def score_dt_def score_dt_run_def Counter_def count_term_def doc_freqs_def

text \<open>
  Cells 2 to 8 raise nothing on \<open>td_matrix\<close>. The heap and \<open>inv_idx\<close> together are
  the index that cell 4 prints; the document lengths are 3, 4, 4, 2, 4; the entries of
  \<open>dnorm\<close> are in the order in which the documents are first met.
\<close>

lemma notebook_example:
  "notebook td_matrix 5 =
     Inr \<lparr>heap = (\<lambda>_. [])
             (0 := [(1, 1), (4, 1)],
              1 := [(1, 1), (4, 1)],
              2 := [(0, 3), (1, 2), (2, 2), (4, 1)],
              3 := [(2, 1), (3, 1)],
              4 := [(2, 1), (3, 1), (4, 1)],
              5 := []),
           next_addr = 6,
           inv_idx = [''beijing'' \<mapsto> 0, ''dish'' \<mapsto> 1, ''duck'' \<mapsto> 2,
                      ''rabbit'' \<mapsto> 3, ''recipe'' \<mapsto> 4, ''roast'' \<mapsto> 5],
           doclen = [0 \<mapsto> 3, 1 \<mapsto> 4, 2 \<mapsto> 4, 3 \<mapsto> 2, 4 \<mapsto> 4],
           idx = \<lparr>self_idx = [''beijing'' \<mapsto> 0, ''dish'' \<mapsto> 1, ''duck'' \<mapsto> 2,
                      ''rabbit'' \<mapsto> 3, ''recipe'' \<mapsto> 4, ''roast'' \<mapsto> 5]\<rparr>,
           dnorm =
             [(1, sqrt ((1 / 4 * ln (5 / 2)) ^ 2 + (1 / 4 * ln (5 / 2)) ^ 2
                        + (2 / 4 * ln (5 / 4)) ^ 2)),
              (4, sqrt ((1 / 4 * ln (5 / 2)) ^ 2 + (1 / 4 * ln (5 / 2)) ^ 2
                        + (1 / 4 * ln (5 / 4)) ^ 2 + (1 / 4 * ln (5 / 3)) ^ 2)),
              (0, sqrt ((3 / 3 * ln (5 / 4)) ^ 2)),
              (2, sqrt ((2 / 4 * ln (5 / 4)) ^ 2 + (1 / 4 * ln (5 / 2)) ^ 2
                        + (1 / 4 * ln (5 / 3)) ^ 2)),
              (3, sqrt ((1 / 2 * ln (5 / 2)) ^ 2 + (1 / 2 * ln (5 / 3)) ^ 2))],
           NUM_DOCS = 5\<rparr>"
  by (simp add: notebook_eval td_matrix_def eval_nat_numeral)

lemma example_state_eq:
  "example_state =
     \<lparr>heap = (\<lambda>_. [])
             (0 := [(1, 1), (4, 1)],
              1 := [(1, 1), (4, 1)],
              2 := [(0, 3), (1, 2), (2, 2), (4, 1)],
              3 := [(2, 1), (3, 1)],
              4 := [(2, 1), (3, 1), (4, 1)],
              5 := []),
      next_addr = 6,
      inv_idx = [''beijing'' \<mapsto> 0, ''dish'' \<mapsto> 1, ''duck'' \<mapsto> 2,
                 ''rabbit'' \<mapsto> 3, ''recipe'' \<mapsto> 4, ''roast'' \<mapsto> 5],
      doclen = [0 \<mapsto> 3, 1 \<mapsto> 4, 2 \<mapsto> 4, 3 \<mapsto> 2, 4 \<mapsto> 4],
      idx = \<lparr>self_idx = [''beijing'' \<mapsto> 0, ''dish'' \<mapsto> 1, ''duck'' \<mapsto> 2,
                 ''rabbit'' \<mapsto> 3, ''recipe'' \<mapsto> 4, ''roast'' \<mapsto> 5]\<rparr>,
      dnorm =
        [(1, sqrt ((1 / 4 * ln (5 / 2)) ^ 2 + (1 / 4 * ln (5 / 2)) ^ 2
                   + (2 / 4 * ln (5 / 4)) ^ 2)),
         (4, sqrt ((1 / 4 * ln (5 / 2)) ^ 2 + (1 / 4 * ln (5 / 2)) ^ 2
                   + (1 / 4 * ln (5 / 4)) ^ 2 + (1 / 4 * ln (5 / 3)) ^ 2)),
         (0, sqrt ((3 / 3 * ln (5 / 4)) ^ 2)),
         (2, sqrt ((2 / 4 * ln (5 / 4)) ^ 2 + (1 / 4 * ln (5 / 2)) ^ 2
                   + (1 / 4 * ln (5 / 3)) ^ 2)),
         (3, sqrt ((1 / 2 * ln (5 / 2)) ^ 2 + (1 / 2 * ln (5 / 3)) ^ 2))],
      NUM_DOCS = 5\<rparr>"
  unfolding example_state_def notebook_example by simp

lemma notebook_example_state: "notebook td_matrix 5 = Inr example_state"
  unfolding example_state_def notebook_example by simp

lemma example_postings:
  "postings example_state (idx example_state) ''beijing'' = [(1, 1), (4, 1)]"
  "postings example_state (idx example_state) ''dish'' = [(1, 1), (4, 1)]"
  "postings example_state (idx example_state) ''duck'' = [(0, 3), (1, 2), (2, 2), (4, 1)]"
  "postings example_state (idx example_state) ''rabbit'' = [(2, 1), (3, 1)]"
  "postings example_state (idx example_state) ''recipe'' = [(2, 1), (3, 1), (4, 1)]"
  "postings example_state (idx example_state) ''roast'' = []"
  by (simp_all add: example_state_eq postings_def)

lemma example_NUM_DOCS: "NUM_DOCS example_state = 5"
  by (simp add: example_state_eq)

lemma example_allocated:
  "\<forall>t a. self_idx (idx example_state) t = Some a \<longrightarrow> a < next_addr example_state"
  by (simp add: example_state_eq)

lemma example_dnorm:
  "d < 5 \<Longrightarrow> \<exists>v. map_of (dnorm example_state) d = Some v \<and> 0 < v"
proof -
  assume "d < 5"
  then consider "d = 0" | "d = 1" | "d = 2" | "d = 3" | "d = 4" by linarith
  then show ?thesis
    by cases (simp_all add: example_state_eq add_pos_nonneg add_nonneg_pos)
qed

lemma example_idf:
  "idf example_state ''beijing'' = Inr (ln (5 / 2))"
  "idf example_state ''duck'' = Inr (ln (5 / 4))"
  "idf example_state ''recipe'' = Inr (ln (5 / 3))"
  "idf example_state ''roast'' = Inr 0"
  by (simp_all add: idf_def example_postings example_NUM_DOCS math_log_def)

lemma Counter_example:
  "Counter [''beijing'', ''duck'', ''recipe'']
     = [(''beijing'', 1), (''duck'', 1), (''recipe'', 1)]"
  "Counter [] = []"
  "Counter [''roast''] = [(''roast'', 1)]"
  "Counter [''beijing'', ''duck''] = [(''beijing'', 1), (''duck'', 1)]"
  "Counter [''fish'', ''duck''] = [(''fish'', 1), (''duck'', 1)]"
  by (simp_all add: Counter_def count_term_def)

lemma example_query_weights:
  "query_weights example_state [''beijing'', ''duck'', ''recipe'']
     (Counter [''beijing'', ''duck'', ''recipe'']) (Map.empty, 0)
   = Inr ([''beijing'' \<mapsto> 1 / 3 * ln (5 / 2), ''duck'' \<mapsto> 1 / 3 * ln (5 / 4),
           ''recipe'' \<mapsto> 1 / 3 * ln (5 / 3)],
          (1 / 3 * ln (5 / 2)) ^ 2 + (1 / 3 * ln (5 / 4)) ^ 2 + (1 / 3 * ln (5 / 3)) ^ 2)"
  by (simp add: Counter_example example_idf)

lemma example_qnorm_pos:
  "0 < sqrt ((1 / 3 * ln (5 / 2 :: real)) ^ 2 + (1 / 3 * ln (5 / 4)) ^ 2
             + (1 / 3 * ln (5 / 3)) ^ 2)"
  by (simp add: add_pos_nonneg)

text \<open>
  The call of cell 10 returns the score 0 for each of the five documents, as the output
  of cell 11 in the notebook shows (\<open>D1: 0.0\<close> to \<open>D5: 0.0\<close>).
\<close>

lemma example_score_dt:
  "score_dt [''beijing'', ''duck'', ''recipe''] (idx example_state) example_state
     = Inr [(0, 0), (1, 0), (2, 0), (3, 0), (4, 0)]"
proof -
  let ?qnorm = "sqrt ((1 / 3 * ln (5 / 2 :: real)) ^ 2 + (1 / 3 * ln (5 / 4)) ^ 2
                      + (1 / 3 * ln (5 / 3)) ^ 2)"
  have "\<forall>d < NUM_DOCS example_state.
          \<exists>v. map_of (dnorm example_state) d = Some v \<and> ?qnorm * v \<noteq> 0"
  proof (intro allI impI)
    fix d assume "d < NUM_DOCS example_state"
    then have "d < 5" by (simp add: example_NUM_DOCS)
    from example_dnorm [OF this]
    obtain v where "map_of (dnorm example_state) d = Some v" "0 < v"
      by blast
    with example_qnorm_pos
    show "\<exists>v. map_of (dnorm example_state) d = Some v \<and> ?qnorm * v \<noteq> 0"
      by auto
  qed
  with example_query_weights show ?thesis
    unfolding score_dt_Inr_iff by (simp add: example_NUM_DOCS upt_rec)
qed

lemma example_score_dt_qnorm_zero:
  "score_dt [] (idx example_state) example_state = Inl ZeroDivisionError"
  "score_dt [''roast''] (idx example_state) example_state = Inl ZeroDivisionError"
  by (simp_all add: score_dt_def score_dt_run_def Counter_example example_idf math_sqrt_def
        Let_def upt_rec doc_freqs_def)
    (simp_all add: example_state_eq)

section \<open>The claims of the specification\<close>

subsection \<open>C1: the ranking of the worked example\<close>

text \<open>
  C1 requires that, for the worked example and the query beijing, duck, recipe,
  \<open>score_dt\<close> returns five entries with document 4 scoring strictly above document 3
  and document 0 scoring strictly above 0 and below documents 4 and 1. The code returns
  five entries, but each score is 0: the document term frequency and the document
  TF-IDF are the constant 0 under the two TODO comments of the document loop.
\<close>

theorem score_dt_example_all_zero:
  "run_notebook td_matrix 5 [''beijing'', ''duck'', ''recipe'']
     = Inr [(0, 0), (1, 0), (2, 0), (3, 0), (4, 0)]"
  using example_score_dt
  by (simp add: run_notebook_def notebook_example_state)

subsection \<open>C2: a query normalizer of 0\<close>

text \<open>
  C2 requires that a query whose normalizer is 0 (the empty query, or a query of terms
  with idf 0 only) gets the score 0 for every document instead of a division by zero.
  On the worked example the code raises ZeroDivisionError for the empty query and for
  the query roast: the division \<open>score / (qnorm * dnorm[doc_id])\<close> has no guard.
\<close>

theorem score_dt_zero_qnorm_raises:
  "run_notebook td_matrix 5 [] = Inl ZeroDivisionError
   \<and> run_notebook td_matrix 5 [''roast''] = Inl ZeroDivisionError"
  using example_score_dt_qnorm_zero
  by (simp add: run_notebook_def notebook_example_state)

subsection \<open>C3: the value of idf\<close>

text \<open>
  C3: \<open>idf\<close> returns 0 for a term whose posting list is empty, and \<open>ln (N / df)\<close> for a
  term with \<open>df > 0\<close> postings, where \<open>N\<close> is the number of documents; in the worked
  example the idf of roast is 0. A term that occurs in a document belongs to a
  collection of at least one document, hence \<open>0 < N\<close> in the second part (with
  \<open>NUM_DOCS = 0\<close> and a non-empty posting list the logarithm raises, see
  \<open>idf_no_documents\<close>).
\<close>

theorem idf_value:
  "(postings s (idx s) term = [] \<longrightarrow> idf s term = Inr 0)
   \<and> (postings s (idx s) term \<noteq> [] \<and> 0 < NUM_DOCS s \<longrightarrow>
        idf s term = Inr (ln (real (NUM_DOCS s) / real (length (postings s (idx s) term)))))
   \<and> (case notebook td_matrix 5 of Inl e \<Rightarrow> Inl e | Inr s0 \<Rightarrow> idf s0 ''roast'') = Inr 0"
proof -
  have "(case notebook td_matrix 5 of Inl e \<Rightarrow> Inl e | Inr s0 \<Rightarrow> idf s0 ''roast'') = Inr 0"
    using example_idf(4) by (simp add: notebook_example_state)
  then show ?thesis
    using idf_positive_df [of s "term"] idf_zero_df [of s "term"] by blast
qed

theorem idf_value_witness:
  "postings example_state (idx example_state) ''roast'' = []
   \<and> idf example_state ''roast'' = Inr 0
   \<and> postings example_state (idx example_state) ''duck'' \<noteq> []
   \<and> 0 < NUM_DOCS example_state
   \<and> idf example_state ''duck'' = Inr (ln (5 / 4))"
  using idf_value [of example_state "''roast''"] idf_value [of example_state "''duck''"]
  by (simp add: example_postings example_NUM_DOCS)

subsection \<open>C4: one entry per document\<close>

text \<open>
  C4 requires that, for every query and every index with \<open>N\<close> documents, the mapping
  that \<open>score_dt\<close> returns has exactly \<open>N\<close> entries, one for each document identifier in
  \<open>[0, N)\<close>. Every mapping that the code returns is of this form
  (\<open>score_dt_returned_keys\<close>), but the code does not return one for every query and
  index: for the empty query on the worked example, and for the query a on a collection
  of two documents of which the second has no recorded term, the call raises and there
  is no mapping at all, where the claim has 5 and 2 entries.
\<close>

theorem score_dt_no_mapping:
  "(case run_notebook td_matrix 5 [] of
      Inl e \<Rightarrow> None | Inr scores \<Rightarrow> Some (map fst scores)) = None
   \<and> (case run_notebook [(''a'', [1, 0])] 2 [''a''] of
      Inl e \<Rightarrow> None | Inr scores \<Rightarrow> Some (map fst scores)) = None"
proof -
  have "run_notebook td_matrix 5 [] = Inl ZeroDivisionError"
    using example_score_dt_qnorm_zero(1)
    by (simp add: run_notebook_def notebook_example_state)
  moreover have "run_notebook [(''a'', [1, 0])] 2 [''a''] = Inl KeyError"
    by (simp add: notebook_eval score_dt_eval)
  ultimately show ?thesis by simp
qed

subsection \<open>C5: a document normalizer of 0\<close>

text \<open>
  C5 requires that a document whose normalizer is 0 (a document with no recorded terms)
  gets the score 0 against every query, instead of a missing-key or division-by-zero
  error. The code raises in both cases. In a collection of two documents where the term
  a occurs in document 0 only, document 1 has no recorded term and no entry in
  \<open>dnorm\<close>: the lookup \<open>dnorm[doc_id]\<close> raises KeyError. In a collection where a
  occurs in both documents and b in document 1 only, the idf of a is 0 and so is the
  normalizer of document 0: the division raises ZeroDivisionError.
\<close>

theorem score_dt_zero_dnorm_raises:
  "run_notebook [(''a'', [1, 0])] 2 [''a''] = Inl KeyError
   \<and> run_notebook [(''a'', [1, 1]), (''b'', [0, 1])] 2 [''b''] = Inl ZeroDivisionError"
  by (simp add: notebook_eval score_dt_eval)

subsection \<open>C6: a term that is not in the index\<close>

text \<open>
  C6: for a term that is not in the inverted index, \<open>postings\<close> returns the empty list
  (it is a total function: \<open>dict.get\<close> with a default raises nothing), the idf of the
  term is 0, its weight in every query that contains it is 0, and its step in the score
  of a document leaves the score as it was.
\<close>

theorem unknown_term_absorbed:
  "(self_idx index term = None \<longrightarrow> postings s index term = [])
   \<and> (self_idx (idx s) term = None \<longrightarrow>
        idf s term = Inr 0
        \<and> (\<forall>query tfidf_q qsum.
              term \<in> set query \<and>
              query_weights s query (Counter query) (Map.empty, 0) = Inr (tfidf_q, qsum)
              \<longrightarrow> tfidf_q term = Some 0 \<and>
                  (\<forall>keys score.
                     doc_score tfidf_q (term # keys) score = doc_score tfidf_q keys score)))"
proof -
  have p: "self_idx index term = None \<longrightarrow> postings s index term = []"
    by (simp add: postings_def)
  have "idf s term = Inr 0 \<and>
        (\<forall>query tfidf_q qsum.
              term \<in> set query \<and>
              query_weights s query (Counter query) (Map.empty, 0) = Inr (tfidf_q, qsum)
              \<longrightarrow> tfidf_q term = Some 0 \<and>
                  (\<forall>keys score.
                     doc_score tfidf_q (term # keys) score = doc_score tfidf_q keys score))"
    if none: "self_idx (idx s) term = None"
  proof -
    have i: "idf s term = Inr 0" using none by (simp add: idf_def postings_def)
    have "tfidf_q term = Some 0
          \<and> (\<forall>keys score.
                doc_score tfidf_q (term # keys) score = doc_score tfidf_q keys score)"
      if "term \<in> set query"
        and "query_weights s query (Counter query) (Map.empty, 0) = Inr (tfidf_q, qsum)"
      for query tfidf_q qsum
    proof -
      have "tfidf_q term = Some 0"
        using query_weights_zero_idf [OF i that(2)] that(1) by (simp add: Counter_keys)
      then show ?thesis using doc_score_skip [of tfidf_q "term" 0] by blast
    qed
    with i show ?thesis by blast
  qed
  with p show ?thesis by blast
qed

theorem unknown_term_absorbed_witness:
  "self_idx (idx example_state) ''fish'' = None
   \<and> postings example_state (idx example_state) ''fish'' = []
   \<and> idf example_state ''fish'' = Inr 0
   \<and> ''fish'' \<in> set [''fish'', ''duck'']
   \<and> query_weights example_state [''fish'', ''duck''] (Counter [''fish'', ''duck''])
         (Map.empty, 0)
       = Inr ([''fish'' \<mapsto> 0, ''duck'' \<mapsto> 1 / 2 * ln (5 / 4)], (1 / 2 * ln (5 / 4)) ^ 2)
   \<and> doc_score [''fish'' \<mapsto> 0, ''duck'' \<mapsto> 1 / 2 * ln (5 / 4)] [''fish'', ''duck''] 0
       = doc_score [''fish'' \<mapsto> 0, ''duck'' \<mapsto> 1 / 2 * ln (5 / 4)] [''duck''] 0"
proof -
  have none: "self_idx (idx example_state) ''fish'' = None"
    by (simp add: example_state_eq)
  from unknown_term_absorbed [of "idx example_state" "''fish''" example_state] none
  have p: "postings example_state (idx example_state) ''fish'' = []"
    and i: "idf example_state ''fish'' = Inr 0" by simp_all
  have "query_weights example_state [''fish'', ''duck''] (Counter [''fish'', ''duck''])
         (Map.empty, 0)
       = Inr ([''fish'' \<mapsto> 0, ''duck'' \<mapsto> 1 / 2 * ln (5 / 4)], (1 / 2 * ln (5 / 4)) ^ 2)"
    by (simp add: Counter_example i example_idf)
  with none p i show ?thesis by simp
qed

subsection \<open>C7: idf decreases with the document frequency\<close>

text \<open>
  C7: if two terms of the same index have the document frequencies \<open>df1\<close> and \<open>df2\<close>
  with \<open>0 < df1 < df2\<close>, the idf of the first is strictly greater than the idf of the
  second. A collection in which a term occurs has at least one document, \<open>0 < N\<close>.
\<close>

theorem idf_monotone:
  assumes "0 < length (postings s (idx s) t1)"
    and "length (postings s (idx s) t1) < length (postings s (idx s) t2)"
    and "0 < NUM_DOCS s"
  shows "\<exists>w1 w2. idf s t1 = Inr w1 \<and> idf s t2 = Inr w2 \<and> w2 < w1"
proof -
  let ?n = "real (NUM_DOCS s)"
  let ?d1 = "real (length (postings s (idx s) t1))"
  let ?d2 = "real (length (postings s (idx s) t2))"
  from assms have ne: "postings s (idx s) t1 \<noteq> []" "postings s (idx s) t2 \<noteq> []"
    by auto
  from assms have pos: "0 < ?d1" "0 < ?d2" "0 < ?n" and lt: "?d1 < ?d2" by auto
  then have q: "0 < ?n / ?d2" "?n / ?d2 < ?n / ?d1"
    by (simp_all add: divide_strict_left_mono)
  then have "ln (?n / ?d2) < ln (?n / ?d1)" by simp
  moreover have "idf s t1 = Inr (ln (?n / ?d1))" "idf s t2 = Inr (ln (?n / ?d2))"
    using ne assms(3) by (simp_all add: idf_positive_df)
  ultimately show ?thesis by simp
qed

theorem idf_monotone_witness:
  "0 < length (postings example_state (idx example_state) ''beijing'')
   \<and> length (postings example_state (idx example_state) ''beijing'')
       < length (postings example_state (idx example_state) ''duck'')
   \<and> 0 < NUM_DOCS example_state
   \<and> idf example_state ''beijing'' = Inr (ln (5 / 2))
   \<and> idf example_state ''duck'' = Inr (ln (5 / 4))
   \<and> ln (5 / 4 :: real) < ln (5 / 2)"
  using idf_monotone [of example_state "''beijing''" "''duck''"]
  by (simp add: example_postings example_NUM_DOCS example_idf)

subsection \<open>C8: a single pass over the posting lists\<close>

text \<open>
  C8 requires that one call of \<open>score_dt\<close> visits each posting of the query terms
  exactly once, its cursors moving forward only. The notebook describes the pass as
  reading from the beginning of each list and deleting the posting once the current
  document has been processed. The document loop of the code reads and deletes nothing:
  when the call on the worked example ends, the three lists in \<open>plists\<close> still hold all
  of their 2 + 4 + 3 postings.
\<close>

theorem score_dt_plists_untouched:
  "(case score_dt_run [''beijing'', ''duck'', ''recipe''] (idx example_state) example_state of
      (r, plists, s') \<Rightarrow>
        (r, map (\<lambda>t. map_option (heap s') (plists t)) [''beijing'', ''duck'', ''recipe'']))
   = (Inr [(0, 0), (1, 0), (2, 0), (3, 0), (4, 0)],
      [Some [(1, 1), (4, 1)], Some [(0, 3), (1, 2), (2, 2), (4, 1)],
       Some [(2, 1), (3, 1), (4, 1)]])"
proof -
  obtain r plists s' where run:
    "score_dt_run [''beijing'', ''duck'', ''recipe''] (idx example_state) example_state
       = (r, plists, s')"
    by (metis prod_cases3)
  have r: "r = Inr [(0, 0), (1, 0), (2, 0), (3, 0), (4, 0)]"
    using example_score_dt run by (simp add: score_dt_def)
  have "fetch_plists (idx example_state) (map fst (Counter [''beijing'', ''duck'', ''recipe'']))
          Map.empty example_state = (plists, s')"
    using run unfolding score_dt_run_def Let_def example_query_weights
    by (simp add: math_sqrt_nonneg add_nonneg_nonneg split: prod.splits)
  then have "map (\<lambda>t. map_option (heap s') (plists t)) [''beijing'', ''duck'', ''recipe'']
      = [Some [(1, 1), (4, 1)], Some [(0, 3), (1, 2), (2, 2), (4, 1)],
         Some [(2, 1), (3, 1), (4, 1)]]"
    by (auto simp: Let_def Counter_example example_postings postings_def)
       (simp_all add: example_state_eq)
  with r run show ?thesis by simp
qed

subsection \<open>C9: the call changes none of its inputs\<close>

text \<open>
  C9: a call of \<open>score_dt\<close> leaves the inverted index, the document lengths and the
  document normalizers as they were. Every list object that existed before the call
  holds the same postings after it, so the posting lists of the index read the same;
  the lists in \<open>plists\<close> are objects allocated by the call, each holding the postings
  of its term. The lists of the index are objects that exist before the call: they lie
  below the allocation pointer, as in every state that the notebook builds
  (\<open>notebook_allocated\<close>).
\<close>

theorem score_dt_frame:
  assumes "score_dt_run query index s = (r, plists, s')"
    and "\<forall>t a. self_idx index t = Some a \<longrightarrow> a < next_addr s"
  shows "inv_idx s' = inv_idx s \<and> doclen s' = doclen s \<and> idx s' = idx s
     \<and> dnorm s' = dnorm s \<and> NUM_DOCS s' = NUM_DOCS s
     \<and> (\<forall>a < next_addr s. heap s' a = heap s a)
     \<and> (\<forall>t. postings s' index t = postings s index t)
     \<and> (\<forall>t a. plists t = Some a \<longrightarrow>
           next_addr s \<le> a \<and> a < next_addr s' \<and> heap s' a = postings s index t)"
proof -
  note fr = score_dt_run_frame [OF assms(1)]
  have "postings s' index t = postings s index t" for t
    using fr assms(2) by (auto simp: postings_def split: option.splits)
  moreover have "next_addr s \<le> a \<and> a < next_addr s' \<and> heap s' a = postings s index t"
    if "plists t = Some a" for t a
    using score_dt_run_plists [OF assms that] .
  ultimately show ?thesis using fr by blast
qed

theorem score_dt_frame_witness:
  "self_idx (idx example_state)
     = [''beijing'' \<mapsto> 0, ''dish'' \<mapsto> 1, ''duck'' \<mapsto> 2,
        ''rabbit'' \<mapsto> 3, ''recipe'' \<mapsto> 4, ''roast'' \<mapsto> 5]
   \<and> next_addr example_state = 6
   \<and> (case score_dt_run [''beijing'', ''duck''] (idx example_state) example_state of
        (r, plists, s') \<Rightarrow>
          inv_idx s' = inv_idx example_state \<and> doclen s' = doclen example_state
          \<and> idx s' = idx example_state \<and> dnorm s' = dnorm example_state
          \<and> heap s' 2 = heap example_state 2
          \<and> postings s' (idx example_state) ''duck'' = [(0, 3), (1, 2), (2, 2), (4, 1)]
          \<and> plists ''duck'' = Some 7
          \<and> heap s' 7 = [(0, 3), (1, 2), (2, 2), (4, 1)])"
proof -
  obtain r plists s' where run:
    "score_dt_run [''beijing'', ''duck''] (idx example_state) example_state = (r, plists, s')"
    by (metis prod_cases3)
  have pl: "plists ''duck'' = Some 7"
    using run
    by (auto simp: score_dt_run_def Counter_example example_idf Let_def math_sqrt_nonneg
          add_nonneg_nonneg split: prod.splits)
       (simp add: example_state_eq)
  have ix: "self_idx (idx example_state)
     = [''beijing'' \<mapsto> 0, ''dish'' \<mapsto> 1, ''duck'' \<mapsto> 2,
        ''rabbit'' \<mapsto> 3, ''recipe'' \<mapsto> 4, ''roast'' \<mapsto> 5]"
    and nx: "next_addr example_state = 6"
    by (simp_all add: example_state_eq)
  from score_dt_frame [OF run example_allocated] pl
  have "inv_idx s' = inv_idx example_state \<and> doclen s' = doclen example_state
          \<and> idx s' = idx example_state \<and> dnorm s' = dnorm example_state
          \<and> heap s' 2 = heap example_state 2
          \<and> postings s' (idx example_state) ''duck'' = [(0, 3), (1, 2), (2, 2), (4, 1)]
          \<and> plists ''duck'' = Some 7
          \<and> heap s' 7 = [(0, 3), (1, 2), (2, 2), (4, 1)]"
    by (simp add: example_postings nx)
  with ix nx show ?thesis by (simp add: run)
qed

subsection \<open>C10: every returned score is 0\<close>

text \<open>
  C10: whenever \<open>score_dt\<close> returns without raising, every score in the returned
  mapping is exactly 0, since the document term frequency and the document TF-IDF are
  the constant 0.
\<close>

theorem score_dt_scores_zero:
  "score_dt query index s = Inr scores \<Longrightarrow> (d, v) \<in> set scores \<Longrightarrow> v = 0"
  by (auto simp: score_dt_Inr_iff)

theorem score_dt_scores_zero_witness:
  "score_dt [''beijing'', ''duck'', ''recipe''] (idx example_state) example_state
     = Inr [(0, 0), (1, 0), (2, 0), (3, 0), (4, 0)]
   \<and> (4, 0) \<in> set [(0::nat, 0::real), (1, 0), (2, 0), (3, 0), (4, 0)]"
  using score_dt_scores_zero [of "[''beijing'', ''duck'', ''recipe'']" "idx example_state"
      example_state "[(0, 0), (1, 0), (2, 0), (3, 0), (4, 0)]" 4 0]
    example_score_dt
  by simp

end
